theory Spec2Isabelle
  imports Main
begin

section \<open>JavaScript values used by the validation engine\<close>

text \<open>
  A JavaScript number is modelled as an integer or \<open>NaN\<close>: the numeric entity fields are
  filled by \<^verbatim>\<open>parseInt(String(value), 10)\<close> at upload, which yields exactly these.
  Integers stand for themselves below \<open>2^53\<close> in magnitude.
\<close>

datatype jsnum = NaN | Num int

text \<open>Exceptions that can leave a function: only the kind is modelled, not the message.\<close>

datatype exn = TypeError | SyntaxError | Error string

text \<open>
  An element of \<^verbatim>\<open>AvailableSlots\<close> or \<^verbatim>\<open>PreferredPhases\<close>: declared as numbers (or
  \<^verbatim>\<open>number | string\<close>), stored as trimmed strings by the upload path.
\<close>

datatype jsval = VNum jsnum | VStr string

text \<open>
  A list-typed entity field. The declared type is an optional array; the cell editor
  can leave a comma-joined string in the same field (it tests
  \<^verbatim>\<open>typeof item[field] === 'string'\<close>), so the three representations are kept apart.
\<close>

datatype 'a listField = Missing | Arr "'a list" | Scalar string

text \<open>A \<^verbatim>\<open>Set\<close> iterates in insertion order: a duplicate-free list, first occurrence kept.\<close>

type_synonym 'a jsset = "'a list"

definition Set_has :: "'a jsset \<Rightarrow> 'a \<Rightarrow> bool" where
  "Set_has s x = (x \<in> set s)"

definition Set_add :: "'a jsset \<Rightarrow> 'a \<Rightarrow> 'a jsset" where
  "Set_add s x = (if x \<in> set s then s else s @ [x])"

definition new_Set :: "'a list \<Rightarrow> 'a jsset" where
  "new_Set xs = foldl Set_add [] xs"

text \<open>Truthiness of an optional string and of an optional number.\<close>

fun truthyStr :: "string option \<Rightarrow> bool" where
  "truthyStr None = False"
| "truthyStr (Some s) = (s \<noteq> [])"

fun truthyNum :: "jsnum option \<Rightarrow> bool" where
  "truthyNum None = False"
| "truthyNum (Some NaN) = False"
| "truthyNum (Some (Num n)) = (n \<noteq> 0)"

text \<open>\<^verbatim>\<open>a < b\<close> and \<^verbatim>\<open>a > b\<close> on numbers: every comparison with \<open>NaN\<close> is false.\<close>

fun numLess :: "jsnum \<Rightarrow> int \<Rightarrow> bool" where
  "numLess NaN k = False"
| "numLess (Num n) k = (n < k)"

fun numGreater :: "jsnum \<Rightarrow> int \<Rightarrow> bool" where
  "numGreater NaN k = False"
| "numGreater (Num n) k = (n > k)"

section \<open>Strings\<close>

text \<open>
  Strings are byte lists; the whitespace and digit classes below are the ASCII members of
  the ECMAScript classes, which is all an ASCII string can contain.
\<close>

definition isDigit :: "char \<Rightarrow> bool" where
  "isDigit c = (c \<in> set ''0123456789'')"

definition isWhiteSpace :: "char \<Rightarrow> bool" where
  "isWhiteSpace c = (c \<in> set [CHR 0x09, CHR 0x0A, CHR 0x0B, CHR 0x0C, CHR 0x0D, CHR 0x20])"

definition trim :: "string \<Rightarrow> string" where
  "trim s = rev (dropWhile isWhiteSpace (rev (dropWhile isWhiteSpace s)))"

text \<open>\<^verbatim>\<open>xs.join(sep)\<close> on an array of strings.\<close>

fun join :: "string \<Rightarrow> string list \<Rightarrow> string" where
  "join sep [] = []"
| "join sep [x] = x"
| "join sep (x # y # ys) = x @ sep @ join sep (y # ys)"

text \<open>\<^verbatim>\<open>s.split(',')\<close>: always at least one piece.\<close>

fun splitComma :: "string \<Rightarrow> string list" where
  "splitComma [] = [[]]"
| "splitComma (c # cs) =
     (if c = CHR '','' then [] # splitComma cs
      else (case splitComma cs of p # ps \<Rightarrow> (c # p) # ps | [] \<Rightarrow> [[c]]))"

text \<open>\<^verbatim>\<open>String(n)\<close> for an integer: decimal digits, with a minus sign when negative.\<close>

definition digitChar :: "nat \<Rightarrow> char" where
  "digitChar d = ''0123456789'' ! (d mod 10)"

function showNat :: "nat \<Rightarrow> string" where
  "showNat n = (if n < 10 then [digitChar n] else showNat (n div 10) @ [digitChar (n mod 10)])"
  by pat_completeness auto
termination
  by (relation "measure (\<lambda>n. n)") auto

definition showInt :: "int \<Rightarrow> string" where
  "showInt n = (if n < 0 then CHR ''-'' # showNat (nat (- n)) else showNat (nat n))"

fun showNum :: "jsnum \<Rightarrow> string" where
  "showNum NaN = ''NaN''"
| "showNum (Num n) = showInt n"

fun String' :: "jsval \<Rightarrow> string" where
  "String' (VStr s) = s"
| "String' (VNum n) = showNum n"

text \<open>\<^verbatim>\<open>s.replace(/\D/g, '')\<close>: every character that is not a decimal digit is removed.\<close>

definition stripNonDigits :: "string \<Rightarrow> string" where
  "stripNonDigits s = filter isDigit s"

text \<open>
  \<^verbatim>\<open>Number(s)\<close> on a string is \<open>NaN\<close> unless the trimmed string is empty or a
  StrNumericLiteral of ECMAScript: a signed decimal literal (digits, optional fraction,
  optional exponent, or \<^verbatim>\<open>Infinity\<close>) or an unsigned binary, octal or hexadecimal
  integer literal.
\<close>

definition allDigits :: "string \<Rightarrow> bool" where
  "allDigits s = (s \<noteq> [] \<and> list_all isDigit s)"

definition exponentOpt :: "string \<Rightarrow> bool" where
  "exponentOpt r =
     (case r of
        [] \<Rightarrow> True
      | e # t \<Rightarrow> (e = CHR ''e'' \<or> e = CHR ''E'') \<and>
          (case t of
             [] \<Rightarrow> False
           | s # u \<Rightarrow> if s = CHR ''+'' \<or> s = CHR ''-'' then allDigits u else allDigits t))"

definition unsignedDecimal :: "string \<Rightarrow> bool" where
  "unsignedDecimal s =
     (s = ''Infinity'' \<or>
      (let a = takeWhile isDigit s; r = dropWhile isDigit s in
       case r of
         [] \<Rightarrow> a \<noteq> []
       | c # t \<Rightarrow>
           if c = CHR ''.''
           then (a \<noteq> [] \<or> takeWhile isDigit t \<noteq> []) \<and> exponentOpt (dropWhile isDigit t)
           else a \<noteq> [] \<and> exponentOpt r))"

definition strDecimal :: "string \<Rightarrow> bool" where
  "strDecimal s =
     (case s of
        [] \<Rightarrow> False
      | c # t \<Rightarrow> if c = CHR ''+'' \<or> c = CHR ''-'' then unsignedDecimal t else unsignedDecimal s)"

definition nonDecimal :: "string \<Rightarrow> bool" where
  "nonDecimal s =
     (case s of
        z # x # t \<Rightarrow>
          z = CHR ''0'' \<and> t \<noteq> [] \<and>
          (if x = CHR ''x'' \<or> x = CHR ''X'' then list_all (\<lambda>c. c \<in> set ''0123456789abcdefABCDEF'') t
           else if x = CHR ''o'' \<or> x = CHR ''O'' then list_all (\<lambda>c. c \<in> set ''01234567'') t
           else if x = CHR ''b'' \<or> x = CHR ''B'' then list_all (\<lambda>c. c \<in> set ''01'') t
           else False)
      | _ \<Rightarrow> False)"

definition stringIsNumeric :: "string \<Rightarrow> bool" where
  "stringIsNumeric s = (let t = trim s in t = [] \<or> strDecimal t \<or> nonDecimal t)"

text \<open>\<^verbatim>\<open>isNaN(Number(s))\<close> for an array element.\<close>

fun isNaN_Number :: "jsval \<Rightarrow> bool" where
  "isNaN_Number (VNum NaN) = True"
| "isNaN_Number (VNum (Num n)) = False"
| "isNaN_Number (VStr s) = (\<not> stringIsNumeric s)"

text \<open>\<^verbatim>\<open>/^\d+-\d+$/.test(p)\<close>: digits, one hyphen, digits, and nothing else.\<close>

definition rangeFormat :: "string \<Rightarrow> bool" where
  "rangeFormat p =
     (takeWhile isDigit p \<noteq> [] \<and>
      (case dropWhile isDigit p of
         [] \<Rightarrow> False
       | c # t \<Rightarrow> c = CHR ''-'' \<and> allDigits t))"

section \<open>Data model\<close>

record BaseData =
  id' :: string

record Client = BaseData +
  ClientID :: "string option"
  ClientGroup :: "string option"
  PriorityLevel :: "jsnum option"
  RequestedTaskIDs :: "string listField"
  AttributesJSON :: "string option"

record Worker = BaseData +
  WorkerID :: "string option"
  WorkerGroup :: "string option"
  Skills :: "string listField"
  AvailableSlots :: "jsval listField"
  MaxLoadPerPhase :: "jsnum option"
  MaxConcurrent :: "jsnum option"

record Task = BaseData +
  TaskID :: "string option"
  RequiredSkills :: "string listField"
  PreferredPhases :: "jsval listField"
  Duration :: "jsnum option"
  CoRunTaskIDs :: "string listField"

datatype EntityType = clients | workers | tasks

text \<open>
  \<open>errId\<close> is the \<^verbatim>\<open>id\<close> property of a ValidationError: a domain id (possibly
  \<^verbatim>\<open>undefined\<close>), the internal id of a row, or \<^verbatim>\<open>'Global'\<close>. \<open>rowId\<close> is always
  \<^verbatim>\<open>undefined\<close> in the engine.
\<close>

record ValidationError =
  rowId :: "string option"
  entityType :: EntityType
  errId :: "string option"
  field :: string
  message :: string
  suggestion :: "string option"

definition mkError :: "EntityType \<Rightarrow> string option \<Rightarrow> string \<Rightarrow> string \<Rightarrow> ValidationError" where
  "mkError et i f m =
     \<lparr>rowId = None, entityType = et, errId = i, field = f, message = m, suggestion = None\<rparr>"

section \<open>Duplicate scan\<close>

text \<open>
  \<^verbatim>\<open>checkDuplicates(items, idKey, entityType)\<close>: \<open>getId\<close> reads \<^verbatim>\<open>item[idKey]\<close>. The loop
  state is the seen-id set and the shared error list.
\<close>

definition dupStep ::
  "('m BaseData_scheme \<Rightarrow> string option) \<Rightarrow> string \<Rightarrow> EntityType \<Rightarrow>
   string option jsset \<times> ValidationError list \<Rightarrow> 'm BaseData_scheme \<Rightarrow>
   string option jsset \<times> ValidationError list" where
  "dupStep getId idKey et st item =
     (case st of (ids, allErrors) \<Rightarrow>
        let i = getId item in
        (Set_add ids i,
         if \<not> truthyStr i then
           allErrors @ [mkError et (Some (id' item)) idKey ''Required ID is missing.'']
         else if Set_has ids i then
           allErrors @ [mkError et i idKey (''Duplicate ID found: '' @ the i @ ''.'')]
         else allErrors))"

definition checkDuplicates ::
  "('m BaseData_scheme \<Rightarrow> string option) \<Rightarrow> string \<Rightarrow> EntityType \<Rightarrow>
   'm BaseData_scheme list \<Rightarrow> ValidationError list \<Rightarrow> ValidationError list" where
  "checkDuplicates getId idKey et items allErrors =
     snd (foldl (dupStep getId idKey et) ([], allErrors) items)"

text \<open>
  The duplicate rule in the specification's words: what one entity contributes, given the
  entities that precede it in store order.
\<close>

definition duplicateFlags ::
  "('m BaseData_scheme \<Rightarrow> string option) \<Rightarrow> string \<Rightarrow> EntityType \<Rightarrow>
   'm BaseData_scheme list \<Rightarrow> 'm BaseData_scheme \<Rightarrow> ValidationError list" where
  "duplicateFlags getId idKey et earlier item =
     (case getId item of
        None \<Rightarrow> [mkError et (Some (id' item)) idKey ''Required ID is missing.'']
      | Some i \<Rightarrow>
          if i = [] then [mkError et (Some (id' item)) idKey ''Required ID is missing.'']
          else if Some i \<in> set (map getId earlier)
          then [mkError et (Some i) idKey (''Duplicate ID found: '' @ i @ ''.'')]
          else [])"

section \<open>Validation engine\<close>

text \<open>
  \<^verbatim>\<open>JSON.parse\<close> is a parameter of the engine: it either returns or throws.
\<close>

type_synonym json_parser = "string \<Rightarrow> exn + unit"

text \<open>
  \<^verbatim>\<open>xs.flatMap(x => x.F || [])\<close> flattens arrays only: a missing field or an empty string
  contributes nothing, a non-empty string contributes itself as one element.
\<close>

fun orEmpty :: "string listField \<Rightarrow> string list" where
  "orEmpty Missing = []"
| "orEmpty (Arr xs) = xs"
| "orEmpty (Scalar s) = (if s = [] then [] else [s])"

text \<open>
  A \<^verbatim>\<open>forEach\<close> whose callback may throw: the first exception ends the loop. Each callback
  returns what it pushed.
\<close>

fun mapE :: "('a \<Rightarrow> exn + 'b) \<Rightarrow> 'a list \<Rightarrow> exn + 'b list" where
  "mapE f [] = Inr []"
| "mapE f (x # xs) =
     (case f x of
        Inl e \<Rightarrow> Inl e
      | Inr y \<Rightarrow> (case mapE f xs of Inl e \<Rightarrow> Inl e | Inr ys \<Rightarrow> Inr (y # ys)))"

text \<open>
  The callback of \<^verbatim>\<open>clients.forEach\<close>: the errors and the advisory suggestions it pushes.
  \<^verbatim>\<open>c.RequestedTaskIDs?.forEach\<close> is skipped for a missing field and is not a function
  on a string.
\<close>

definition priorityErrors :: "Client \<Rightarrow> ValidationError list" where
  "priorityErrors c =
     (if truthyNum (PriorityLevel c) \<and>
         (numLess (the (PriorityLevel c)) 1 \<or> numGreater (the (PriorityLevel c)) 5)
      then [mkError clients (ClientID c) ''PriorityLevel'' ''Must be between 1-5.'']
      else [])"

definition attributesErrors :: "json_parser \<Rightarrow> Client \<Rightarrow> ValidationError list" where
  "attributesErrors JSON_parse c =
     (if truthyStr (AttributesJSON c)
      then (case JSON_parse (the (AttributesJSON c)) of
              Inr _ \<Rightarrow> []
            | Inl _ \<Rightarrow> [mkError clients (ClientID c) ''AttributesJSON'' ''Invalid JSON format.''])
      else [])"

definition showId :: "string option \<Rightarrow> string" where
  "showId i = (case i of None \<Rightarrow> ''undefined'' | Some s \<Rightarrow> s)"

definition validateClient ::
  "json_parser \<Rightarrow> string option jsset \<Rightarrow> Client \<Rightarrow> exn + (ValidationError list \<times> string list)" where
  "validateClient JSON_parse allTaskIds c =
     (let head = priorityErrors c @ attributesErrors JSON_parse c in
      case RequestedTaskIDs c of
        Scalar s \<Rightarrow> Inl TypeError
      | Missing \<Rightarrow> Inr (head, [])
      | Arr tids \<Rightarrow>
          Inr (head @
               map (\<lambda>tid. mkError clients (ClientID c) ''RequestedTaskIDs''
                             (''Unknown TaskID: '' @ tid @ ''.''))
                   (filter (\<lambda>tid. \<not> Set_has allTaskIds (Some tid)) tids),
               if PriorityLevel c = Some (Num 1) \<and> length tids > 5
               then [''Client '' @ showId (ClientID c) @
                     '' has the highest priority (1) but requests many tasks ('' @
                     showNat (length tids) @ ''). This might be unusual.'']
               else []))"

text \<open>The callback of \<^verbatim>\<open>workers.forEach\<close>.\<close>

definition maxLoadErrors :: "Worker \<Rightarrow> ValidationError list" where
  "maxLoadErrors w =
     (if truthyNum (MaxLoadPerPhase w) \<and> numLess (the (MaxLoadPerPhase w)) 0
      then [mkError workers (WorkerID w) ''MaxLoadPerPhase'' ''Cannot be negative.'']
      else [])"

definition maxConcurrentErrors :: "Worker \<Rightarrow> ValidationError list" where
  "maxConcurrentErrors w =
     (if truthyNum (MaxConcurrent w) \<and> numLess (the (MaxConcurrent w)) 1
      then [mkError workers (WorkerID w) ''MaxConcurrent'' ''Must be at least 1.'']
      else [])"

definition slotSuggestion :: "jsval list \<Rightarrow> string" where
  "slotSuggestion slots = join '', '' (map (\<lambda>s. stripNonDigits (String' s)) slots)"

definition slotsError :: "Worker \<Rightarrow> jsval list \<Rightarrow> ValidationError" where
  "slotsError w slots =
     \<lparr>rowId = None, entityType = workers, errId = WorkerID w, field = ''AvailableSlots'',
      message = ''Contains non-numeric values.'', suggestion = Some (slotSuggestion slots)\<rparr>"

definition validateWorker :: "Worker \<Rightarrow> exn + ValidationError list" where
  "validateWorker w =
     (let head = maxLoadErrors w @ maxConcurrentErrors w in
      case AvailableSlots w of
        Scalar s \<Rightarrow> Inl TypeError
      | Missing \<Rightarrow> Inr head
      | Arr slots \<Rightarrow>
          Inr (head @ (if list_ex isNaN_Number slots then [slotsError w slots] else [])))"

text \<open>The callback of \<^verbatim>\<open>tasks.forEach\<close>.\<close>

definition durationErrors :: "Task \<Rightarrow> ValidationError list" where
  "durationErrors t =
     (if truthyNum (Duration t) \<and> numLess (the (Duration t)) 1
      then [mkError tasks (TaskID t) ''Duration'' ''Must be at least 1.'']
      else [])"

fun badPhase :: "jsval \<Rightarrow> bool" where
  "badPhase (VStr p) = (\<not> rangeFormat p)"
| "badPhase (VNum n) = False"

definition requiredSkillError :: "Task \<Rightarrow> string \<Rightarrow> ValidationError" where
  "requiredSkillError t skill =
     mkError tasks (TaskID t) ''RequiredSkills''
       (''No worker has the required skill: '' @ skill @ ''.'')"

definition validateTask :: "string jsset \<Rightarrow> Task \<Rightarrow> exn + ValidationError list" where
  "validateTask allWorkerSkills t =
     (case RequiredSkills t of
        Scalar s \<Rightarrow> Inl TypeError
      | rs \<Rightarrow>
         (let skillErrs =
                map (requiredSkillError t)
                    (filter (\<lambda>skill. \<not> Set_has allWorkerSkills skill)
                            (case rs of Arr skills \<Rightarrow> skills | _ \<Rightarrow> []))
          in case PreferredPhases t of
               Scalar s \<Rightarrow> Inl TypeError
             | Missing \<Rightarrow> Inr (durationErrors t @ skillErrs)
             | Arr ps \<Rightarrow>
                 Inr (durationErrors t @ skillErrs @
                      (if list_ex badPhase ps
                       then [mkError tasks (TaskID t) ''PreferredPhases''
                               (''Invalid range format. Use '' @ [CHR 0x22] @ ''start-end'' @
                                [CHR 0x22] @ ''.'')]
                       else []))))"

text \<open>The skill-coverage pass over the set of required skills.\<close>

definition coverageError :: "string \<Rightarrow> ValidationError" where
  "coverageError skill =
     mkError tasks (Some ''Global'') ''Skill Coverage''
       (''The skill '' @ [CHR 0x27] @ skill @ [CHR 0x27] @
        '' is required by a task but not provided by any worker.'')"

definition skillCoverage :: "string jsset \<Rightarrow> string jsset \<Rightarrow> ValidationError list" where
  "skillCoverage allRequiredSkills allWorkerSkills =
     map coverageError (filter (\<lambda>skill. \<not> Set_has allWorkerSkills skill) allRequiredSkills)"

text \<open>
  \<^verbatim>\<open>validateAllData\<close> (the synchronous engine): the index sets, the three duplicate
  scans, the three per-entity passes, the coverage pass. The result is what it hands to
  \<^verbatim>\<open>setErrors\<close> and \<^verbatim>\<open>setAiSuggestions\<close>, or the exception that leaves it.
\<close>

definition allTaskIds :: "Task list \<Rightarrow> string option jsset" where
  "allTaskIds ts = new_Set (map TaskID ts)"

definition allWorkerSkills :: "Worker list \<Rightarrow> string jsset" where
  "allWorkerSkills ws = new_Set (concat (map (\<lambda>w. orEmpty (Skills w)) ws))"

definition allRequiredSkills :: "Task list \<Rightarrow> string jsset" where
  "allRequiredSkills ts = new_Set (concat (map (\<lambda>t. orEmpty (RequiredSkills t)) ts))"

definition validateAllData ::
  "json_parser \<Rightarrow> Client list \<Rightarrow> Worker list \<Rightarrow> Task list \<Rightarrow>
   exn + (ValidationError list \<times> string list)" where
  "validateAllData JSON_parse cs ws ts =
     (let dups = checkDuplicates TaskID ''TaskID'' tasks ts
                   (checkDuplicates WorkerID ''WorkerID'' workers ws
                      (checkDuplicates ClientID ''ClientID'' clients cs []))
      in case mapE (validateClient JSON_parse (allTaskIds ts)) cs of
           Inl e \<Rightarrow> Inl e
         | Inr rc \<Rightarrow>
        (case mapE validateWorker ws of
           Inl e \<Rightarrow> Inl e
         | Inr rw \<Rightarrow>
        (case mapE (validateTask (allWorkerSkills ws)) ts of
           Inl e \<Rightarrow> Inl e
         | Inr rt \<Rightarrow>
             Inr (dups @ concat (map fst rc) @ concat rw @ concat rt @
                  skillCoverage (allRequiredSkills ts) (allWorkerSkills ws),
                  concat (map snd rc)))))"







section \<open>Sample entities\<close>

text \<open>
  Rows as the upload path builds them: list fields are arrays of trimmed strings, numeric
  fields come from \<^verbatim>\<open>parseInt\<close>. The sample parser accepts the empty object only.
\<close>

definition sampleParser :: json_parser where
  "sampleParser s = (if s = ''{}'' then Inr () else Inl SyntaxError)"

definition sampleClient :: "string \<Rightarrow> jsnum option \<Rightarrow> Client" where
  "sampleClient cid p =
     \<lparr>id' = ''id_1'', ClientID = Some cid, ClientGroup = None, PriorityLevel = p,
      RequestedTaskIDs = Arr [], AttributesJSON = None\<rparr>"

definition sampleWorker :: "jsval listField \<Rightarrow> jsnum option \<Rightarrow> jsnum option \<Rightarrow> Worker" where
  "sampleWorker slots load conc =
     \<lparr>id' = ''id_2'', WorkerID = Some ''W1'', WorkerGroup = None, Skills = Arr [''Go''],
      AvailableSlots = slots, MaxLoadPerPhase = load, MaxConcurrent = conc\<rparr>"

definition sampleTask :: "string list \<Rightarrow> Task" where
  "sampleTask skills =
     \<lparr>id' = ''id_3'', TaskID = Some ''T1'', RequiredSkills = Arr skills,
      PreferredPhases = Arr [VStr ''1-3''], Duration = Some (Num 2), CoRunTaskIDs = Arr []\<rparr>"







section \<open>Rule registry\<close>

text \<open>
  What the translator hands back is whatever \<^verbatim>\<open>JSON.parse\<close> produced. An object is the
  list of its own properties (keys distinct); numbers are integers, which is all the
  truthiness test below distinguishes.
\<close>

datatype json =
    JNull
  | JBool bool
  | JNumber int
  | JString string
  | JArray "json list"
  | JObject "(string \<times> json) list"

text \<open>
  Reading the property \<^verbatim>\<open>type\<close> or \<^verbatim>\<open>params\<close>: a TypeError on \<^verbatim>\<open>null\<close>,
  \<^verbatim>\<open>undefined\<close> (here \<open>None\<close>) on a value that has no such property.
\<close>

fun getProp :: "json \<Rightarrow> string \<Rightarrow> exn + json option" where
  "getProp JNull k = Inl TypeError"
| "getProp (JObject kvs) k = Inr (map_of kvs k)"
| "getProp v k = Inr None"

fun truthy :: "json option \<Rightarrow> bool" where
  "truthy None = False"
| "truthy (Some JNull) = False"
| "truthy (Some (JBool b)) = b"
| "truthy (Some (JNumber n)) = (n \<noteq> 0)"
| "truthy (Some (JString s)) = (s \<noteq> [])"
| "truthy (Some (JArray xs)) = True"
| "truthy (Some (JObject kvs)) = True"

record Rule = BaseData +
  type' :: json
  params :: json

text \<open>
  The three toasts of the handler: the prompt for an empty description,
  "Failed to generate rule: <message of the exception>", and "Rule successfully generated".
\<close>

datatype toast = PleaseEnterDescription | FailedToGenerate exn | RuleGenerated

text \<open>
  The outcome of one click: \<open>onUpdate\<close> is the list passed to the registry's update
  callback, \<open>None\<close> when the callback is not called and the registry keeps its rules.
\<close>

record ConvertOutcome =
  onUpdate :: "Rule list option"
  toasted :: toast
  naturalLanguageRule :: string

text \<open>
  \<^verbatim>\<open>handleNaturalLanguageConvert\<close> of the rules tab that calls the translation service.
  \<open>generateRuleFromAI\<close> is the translator (it returns a parsed value or throws),
  \<open>generateUniqueId\<close> the id it would draw.
\<close>

definition handleNaturalLanguageConvert ::
  "(string \<Rightarrow> exn + json) \<Rightarrow> string \<Rightarrow> Rule list \<Rightarrow> string \<Rightarrow> ConvertOutcome" where
  "handleNaturalLanguageConvert generateRuleFromAI generateUniqueId rules text =
     (let failed = (\<lambda>e. \<lparr>onUpdate = None, toasted = FailedToGenerate e,
                            naturalLanguageRule = text\<rparr>);
          invalid = Error ''Invalid rule format from AI''
      in
      if trim text = [] then
        \<lparr>onUpdate = None, toasted = PleaseEnterDescription, naturalLanguageRule = text\<rparr>
      else
        (case generateRuleFromAI text of
           Inl e \<Rightarrow> failed e
         | Inr aiResponseJson \<Rightarrow>
            (case getProp aiResponseJson ''type'' of
               Inl e \<Rightarrow> failed e
             | Inr ty \<Rightarrow>
                if \<not> truthy ty then failed invalid
                else
                  (case getProp aiResponseJson ''params'' of
                     Inl e \<Rightarrow> failed e
                   | Inr pa \<Rightarrow>
                      if \<not> truthy pa then failed invalid
                      else
                        \<lparr>onUpdate = Some (rules @
                             [\<lparr>id' = generateUniqueId, type' = the ty, params = the pa\<rparr>]),
                         toasted = RuleGenerated, naturalLanguageRule = []\<rparr>))))"

text \<open>
  The other rules tab has a built-in translator and no shape check. Its translator looks
  for "run together" or "co-run" in the lower-cased prompt and collects the matches of
  \<^verbatim>\<open>/T\d+/g\<close>; both of its results carry \<^verbatim>\<open>type\<close> and \<^verbatim>\<open>params\<close>.
\<close>

definition toLowerCase :: "string \<Rightarrow> string" where
  "toLowerCase s =
     map (\<lambda>c. if c \<in> set ''ABCDEFGHIJKLMNOPQRSTUVWXYZ''
               then char_of (of_char c + (32::nat)) else c) s"

fun includes' :: "string \<Rightarrow> string \<Rightarrow> bool" where
  "includes' [] p = (p = [])"
| "includes' (c # cs) p = (take (length p) (c # cs) = p \<or> includes' cs p)"

text \<open>
  \<^verbatim>\<open>s.match(/T\d+/g) || []\<close>: leftmost matches, each taking as many digits as follow.
  The flag says whether the previous character was a \<open>T\<close> still waiting for its
  first digit; \<open>cur\<close> is the match being extended.
\<close>

fun matchTaskIds :: "string \<Rightarrow> string option \<Rightarrow> string \<Rightarrow> string list" where
  "matchTaskIds pending None [] = []"
| "matchTaskIds pending (Some cur) [] = [cur]"
| "matchTaskIds pending None (c # cs) =
     (if pending \<noteq> [] \<and> isDigit c then matchTaskIds [] (Some (pending @ [c])) cs
      else if c = CHR ''T'' then matchTaskIds ''T'' None cs
      else matchTaskIds [] None cs)"
| "matchTaskIds pending (Some cur) (c # cs) =
     (if isDigit c then matchTaskIds [] (Some (cur @ [c])) cs
      else if c = CHR ''T'' then cur # matchTaskIds ''T'' None cs
      else cur # matchTaskIds [] None cs)"

definition generateRuleFromAI_builtin :: "string \<Rightarrow> json" where
  "generateRuleFromAI_builtin prompt =
     (let lowerCaseRule = toLowerCase prompt in
      if includes' lowerCaseRule ''run together'' \<or> includes' lowerCaseRule ''co-run''
      then JObject [(''type'', JString ''CO_RUN''),
                    (''params'', JObject [(''taskIds'',
                        JArray (map JString (matchTaskIds [] None prompt)))])]
      else JObject [(''type'', JString ''UNKNOWN''),
                    (''params'', JObject [(''message'', JString ''Could not parse rule.'')])])"

text \<open>
  Its handler spreads the translator's object behind a fresh id:
  \<^verbatim>\<open>onUpdate([...rules, { id: generateUniqueId(), ...aiResponseJson }])\<close>. A property the
  object lacks is absent from the rule (\<open>None\<close>).
\<close>

record SpreadRule = BaseData +
  spreadType :: "json option"
  spreadParams :: "json option"

definition handleNaturalLanguageConvert_builtin ::
  "string \<Rightarrow> SpreadRule list \<Rightarrow> string \<Rightarrow> SpreadRule list option" where
  "handleNaturalLanguageConvert_builtin generateUniqueId rules text =
     (if text = [] then None
      else
        (let promptForLLM =
               ''Convert the following rule into a JSON object with '' @ [CHR 0x27] @ ''type'' @
               [CHR 0x27] @ '' and '' @ [CHR 0x27] @ ''params'' @ [CHR 0x27] @
               '' keys. Rule: '' @ [CHR 0x22] @ text @ [CHR 0x22];
             aiResponseJson = generateRuleFromAI_builtin promptForLLM
         in case (getProp aiResponseJson ''type'', getProp aiResponseJson ''params'') of
              (Inr ty, Inr pa) \<Rightarrow>
                Some (rules @ [\<lparr>id' = generateUniqueId, spreadType = ty, spreadParams = pa\<rparr>])
            | _ \<Rightarrow> None))"

section \<open>Cell edits and fixes\<close>

text \<open>
  The editor works on rows as untyped objects: a row maps a property name to what it
  holds. \<^verbatim>\<open>typeof v === 'string'\<close> is true of \<open>CString\<close> only.
\<close>

datatype cell = CUndefined | CString string | CArray "jsval list" | CNumber jsnum

type_synonym item = "string \<Rightarrow> cell"

definition listFields :: "string list" where
  "listFields = [''RequestedTaskIDs'', ''Skills'', ''RequiredSkills'', ''CoRunTaskIDs'',
                 ''AvailableSlots'', ''PreferredPhases'']"

definition numericFields :: "string list" where
  "numericFields = [''PriorityLevel'', ''Duration'', ''MaxLoadPerPhase'', ''MaxConcurrent'']"

text \<open>\<^verbatim>\<open>String(value).split(',').map(s => s.trim()).filter(Boolean)\<close>\<close>

definition splitTrimDrop :: "string \<Rightarrow> string list" where
  "splitTrimDrop v = filter (\<lambda>s. s \<noteq> []) (map trim (splitComma v))"

text \<open>
  \<^verbatim>\<open>parseInt(s, 10)\<close>: leading whitespace, an optional sign, then the longest run of
  decimal digits; \<open>NaN\<close> when there is no digit.
\<close>

definition digitVal :: "char \<Rightarrow> nat" where
  "digitVal c = length (takeWhile (\<lambda>d. d \<noteq> c) ''0123456789'')"

definition parseInt10 :: "string \<Rightarrow> jsnum" where
  "parseInt10 s =
     (let t = dropWhile isWhiteSpace s;
          neg = (case t of c # u \<Rightarrow> c = CHR ''-'' | [] \<Rightarrow> False);
          r = (case t of c # u \<Rightarrow> if c = CHR ''-'' \<or> c = CHR ''+'' then u else t | [] \<Rightarrow> []);
          ds = takeWhile isDigit r
      in if ds = [] then NaN
         else Num ((if neg then - 1 else 1) * int (foldl (\<lambda>a c. 10 * a + digitVal c) 0 ds)))"

text \<open>\<^verbatim>\<open>n || 0\<close>\<close>

fun orZero :: "jsnum \<Rightarrow> int" where
  "orZero NaN = 0"
| "orZero (Num n) = n"

text \<open>\<^verbatim>\<open>{ ...dataSet[rowIndex] }\<close>: the empty object when the index is out of range.\<close>

definition rowCopy :: "item list \<Rightarrow> nat \<Rightarrow> item" where
  "rowCopy dataSet rowIndex =
     (if rowIndex < length dataSet then dataSet ! rowIndex else (\<lambda>k. CUndefined))"

text \<open>
  \<^verbatim>\<open>handleUpdateCell\<close> up to the row it hands to \<^verbatim>\<open>saveSingleDoc\<close>; \<open>v\<close> is the text of
  the input box. The first copy of the data tab always stores the comma-joined text in a
  list field.
\<close>

definition handleUpdateCell1 :: "item list \<Rightarrow> nat \<Rightarrow> string \<Rightarrow> string \<Rightarrow> item" where
  "handleUpdateCell1 dataSet rowIndex fld v =
     (let itemToUpdate = rowCopy dataSet rowIndex in
      if fld \<in> set listFields then
        itemToUpdate(fld := CString (join '','' (splitTrimDrop v)))
      else if fld \<in> set numericFields then
        itemToUpdate(fld := CString (showInt (orZero (parseInt10 v))))
      else itemToUpdate(fld := CString v))"

text \<open>
  The second copy keeps the representation the field already has: "If the original field
  is a string, join the array back to a string".
\<close>

definition handleUpdateCell2 :: "item list \<Rightarrow> nat \<Rightarrow> string \<Rightarrow> string \<Rightarrow> item" where
  "handleUpdateCell2 dataSet rowIndex fld v =
     (let itemToUpdate = rowCopy dataSet rowIndex in
      if fld \<in> set listFields then
        (let arrValue = splitTrimDrop v in
         case itemToUpdate fld of
           CString old \<Rightarrow> itemToUpdate(fld := CString (join '', '' arrValue))
         | _ \<Rightarrow> itemToUpdate(fld := CArray (map VStr arrValue)))
      else if fld \<in> set numericFields then
        itemToUpdate(fld := CString (showInt (orZero (parseInt10 v))))
      else itemToUpdate(fld := CString v))"

text \<open>
  \<^verbatim>\<open>applyAIFix\<close> of the second copy, from the text the fix-sanity service returned: the
  row is looked up by its domain id; \<open>None\<close> is the "not found" toast, with nothing saved.
\<close>

fun idKeyOf :: "EntityType \<Rightarrow> string" where
  "idKeyOf clients = ''ClientID''"
| "idKeyOf workers = ''WorkerID''"
| "idKeyOf tasks = ''TaskID''"

definition applyAIFix ::
  "item list \<Rightarrow> EntityType \<Rightarrow> string \<Rightarrow> string \<Rightarrow> string \<Rightarrow> item option" where
  "applyAIFix dataSet et i fld validatedSuggestion =
     (case find (\<lambda>row. row (idKeyOf et) = CString i) dataSet of
        None \<Rightarrow> None
      | Some updatedItem \<Rightarrow>
          Some
           (if fld \<in> set listFields then
              (let arrValue = splitTrimDrop validatedSuggestion in
               case updatedItem fld of
                 CString old \<Rightarrow> updatedItem(fld := CString (join '', '' arrValue))
               | _ \<Rightarrow> updatedItem(fld := CArray (map VStr arrValue)))
            else if fld \<in> set numericFields then
              updatedItem(fld := CString (showInt (orZero (parseInt10 validatedSuggestion))))
            else updatedItem(fld := CString validatedSuggestion)))"

definition sampleRow :: item where
  "sampleRow =
     (\<lambda>k. CUndefined)
       (''id'' := CString ''id_2'', ''WorkerID'' := CString ''W1'',
        ''AvailableSlots'' := CArray [VStr ''1'', VStr ''2''],
        ''MaxConcurrent'' := CNumber (Num 2))"

section \<open>Properties of the duplicate scan\<close>

lemma set_Set_add: "set (Set_add s x) = insert x (set s)"
  by (auto simp: Set_add_def)

lemma dupStep_flags:
  assumes "set ids = set (map getId earlier)"
  shows "dupStep getId idKey et (ids, errs) item =
         (Set_add ids (getId item), errs @ duplicateFlags getId idKey et earlier item)"
  using assms
  by (cases "getId item") (auto simp: dupStep_def duplicateFlags_def Set_has_def Let_def)

lemma dup_fold_snoc:
  "foldl (dupStep getId idKey et) ([], errs0) items =
     (foldl Set_add [] (map getId items),
      errs0 @ concat (map (\<lambda>k. duplicateFlags getId idKey et (take k items) (items ! k))
                          [0..<length items]))"
proof (induction items rule: rev_induct)
  case Nil
  show ?case by simp
next
  case (snoc x xs)
  have ids: "set (foldl Set_add [] (map getId xs)) = set (map getId xs)"
    by (induction xs rule: rev_induct) (simp_all add: set_Set_add)
  have old: "map (\<lambda>k. duplicateFlags getId idKey et (take k (xs @ [x])) ((xs @ [x]) ! k))
                 [0..<length xs]
           = map (\<lambda>k. duplicateFlags getId idKey et (take k xs) (xs ! k)) [0..<length xs]"
    by (rule map_cong) (simp_all add: nth_append)
  have idx: "[0..<length (xs @ [x])] = [0..<length xs] @ [length xs]"
    by simp
  have step: "foldl (dupStep getId idKey et) ([], errs0) (xs @ [x]) =
              dupStep getId idKey et (foldl (dupStep getId idKey et) ([], errs0) xs) x"
    by simp
  show ?case
    unfolding step snoc.IH dupStep_flags [OF ids] idx map_append concat_append old
    by simp
qed

lemma duplicate_example:
  "checkDuplicates ClientID ''ClientID'' clients
     [sampleClient ''C1'' None, sampleClient ''C1'' None] [] =
   [mkError clients (Some ''C1'') ''ClientID'' ''Duplicate ID found: C1.''] \<and>
   checkDuplicates ClientID ''ClientID'' clients [sampleClient ''C1'' None] [] = []"
  by (simp add: checkDuplicates_def dupStep_def sampleClient_def Set_add_def Set_has_def Let_def)

text \<open>
  C1. Scanning a collection in store order, the errors added are, entity by entity: nothing
  for the first occurrence of a non-empty domain id; the error
  "Duplicate ID found: <id>." for an id already carried by an earlier entity; the error
  "Required ID is missing." for a missing or empty id, whatever the other entities hold.
\<close>

theorem checkDuplicates_flags:
  "checkDuplicates getId idKey et items allErrors =
     allErrors @ concat (map (\<lambda>k. duplicateFlags getId idKey et (take k items) (items ! k))
                             [0..<length items])"
  by (simp add: checkDuplicates_def dup_fold_snoc)


section \<open>Range checks on numeric fields\<close>

lemma priorityErrors_nonzero:
  assumes "PriorityLevel c = Some (Num n)" and "n \<noteq> 0"
  shows "priorityErrors c =
         (if n < 1 \<or> 5 < n
          then [mkError clients (ClientID c) ''PriorityLevel'' ''Must be between 1-5.'']
          else [])"
  using assms by (simp add: priorityErrors_def)

lemma maxLoadErrors_negative:
  assumes "MaxLoadPerPhase w = Some (Num n)" and "n < 0"
  shows "maxLoadErrors w = [mkError workers (WorkerID w) ''MaxLoadPerPhase'' ''Cannot be negative.'']"
  using assms by (simp add: maxLoadErrors_def)

lemma maxConcurrentErrors_negative:
  assumes "MaxConcurrent w = Some (Num n)" and "n < 0"
  shows "maxConcurrentErrors w = [mkError workers (WorkerID w) ''MaxConcurrent'' ''Must be at least 1.'']"
  using assms by (simp add: maxConcurrentErrors_def)

text \<open>
  C2. A client whose PriorityLevel is 6 gets exactly one PriorityLevel error and one whose
  PriorityLevel is 3 gets none; a client whose PriorityLevel is 0 gets none either, since
  the check is guarded by the truthiness of the value and \<open>0\<close> is falsy.
\<close>

theorem priority_zero_not_flagged:
  "validateAllData sampleParser [sampleClient ''C1'' (Some (Num 0))] [] [] = Inr ([], []) \<and>
   validateAllData sampleParser [sampleClient ''C1'' (Some (Num 3))] [] [] = Inr ([], []) \<and>
   validateAllData sampleParser [sampleClient ''C1'' (Some (Num 6))] [] [] =
     Inr ([mkError clients (Some ''C1'') ''PriorityLevel'' ''Must be between 1-5.''], [])"
  by (simp add: validateAllData_def validateClient_def priorityErrors_def attributesErrors_def
      sampleClient_def checkDuplicates_def dupStep_def skillCoverage_def new_Set_def
      allTaskIds_def allWorkerSkills_def allRequiredSkills_def Set_add_def Set_has_def)

text \<open>
  C6. A worker whose MaxLoadPerPhase is negative gets a MaxLoadPerPhase error; a worker whose
  MaxConcurrent is 0 gets no MaxConcurrent error, since the check is guarded by the
  truthiness of the value and \<open>0\<close> is falsy.
\<close>

theorem maxConcurrent_zero_not_flagged:
  "validateAllData sampleParser [] [sampleWorker (Arr []) (Some (Num 4)) (Some (Num 0))] [] =
     Inr ([], []) \<and>
   validateAllData sampleParser [] [sampleWorker (Arr []) (Some (Num (- 1))) (Some (Num 0))] [] =
     Inr ([mkError workers (Some ''W1'') ''MaxLoadPerPhase'' ''Cannot be negative.''], [])"
  by (simp add: validateAllData_def validateWorker_def maxLoadErrors_def maxConcurrentErrors_def
      sampleWorker_def checkDuplicates_def dupStep_def skillCoverage_def new_Set_def
      allTaskIds_def allWorkerSkills_def allRequiredSkills_def Set_add_def Set_has_def)



section \<open>Shape of a completed validation run\<close>

lemma set_new_Set: "set (new_Set xs) = set xs"
proof -
  have "set (foldl Set_add acc xs) = set acc \<union> set xs" for acc :: "'a list"
    by (induction xs arbitrary: acc) (auto simp: set_Set_add)
  then show ?thesis by (simp add: new_Set_def)
qed

lemma distinct_new_Set: "distinct (new_Set xs)"
proof -
  have "distinct acc \<Longrightarrow> distinct (foldl Set_add acc xs)" for acc :: "'a list"
    by (induction xs arbitrary: acc) (auto simp: Set_add_def)
  then show ?thesis by (simp add: new_Set_def)
qed

lemma mapE_source:
  assumes "mapE f xs = Inr ys" and "y \<in> set ys"
  shows "\<exists>x\<in>set xs. f x = Inr y"
  using assms by (induction xs arbitrary: ys) (auto split: sum.splits)

lemma mapE_result:
  assumes "mapE f xs = Inr ys" and "x \<in> set xs"
  shows "\<exists>y\<in>set ys. f x = Inr y"
  using assms by (induction xs arbitrary: ys) (auto split: sum.splits)

lemma mapE_total:
  assumes "\<forall>x\<in>set xs. \<exists>y. f x = Inr y"
  shows "\<exists>ys. mapE f xs = Inr ys"
  using assms by (induction xs) auto

lemma validateAllData_shape:
  assumes "validateAllData P cs ws ts = Inr (errs, sugg)"
  shows "\<exists>rc rw rt.
           mapE (validateClient P (allTaskIds ts)) cs = Inr rc \<and>
           mapE validateWorker ws = Inr rw \<and>
           mapE (validateTask (allWorkerSkills ws)) ts = Inr rt \<and>
           errs = checkDuplicates TaskID ''TaskID'' tasks ts
                    (checkDuplicates WorkerID ''WorkerID'' workers ws
                       (checkDuplicates ClientID ''ClientID'' clients cs [])) @
                  concat (map fst rc) @ concat rw @ concat rt @
                  skillCoverage (allRequiredSkills ts) (allWorkerSkills ws) \<and>
           sugg = concat (map snd rc)"
  using assms by (auto simp: validateAllData_def Let_def split: sum.splits)

lemma validateAllData_worker:
  assumes "validateAllData P cs ws ts = Inr (errs, sugg)" and "w \<in> set ws"
  shows "\<exists>es. validateWorker w = Inr es \<and> set es \<subseteq> set errs"
proof -
  from validateAllData_shape [OF assms(1)] obtain rc :: "(ValidationError list \<times> string list) list" and rw rt
    where rw: "mapE validateWorker ws = Inr rw"
      and errs: "errs = checkDuplicates TaskID ''TaskID'' tasks ts
                    (checkDuplicates WorkerID ''WorkerID'' workers ws
                       (checkDuplicates ClientID ''ClientID'' clients cs [])) @
                  concat (map fst rc) @ concat rw @ concat rt @
                  skillCoverage (allRequiredSkills ts) (allWorkerSkills ws)"
    by blast
  from mapE_result [OF rw assms(2)] obtain es where "es \<in> set rw" "validateWorker w = Inr es"
    by blast
  then show ?thesis unfolding errs by auto
qed

section \<open>Which pass writes which field\<close>

lemma duplicateFlags_field:
  assumes "e \<in> set (duplicateFlags getId idKey et earlier item)"
  shows "field e = idKey"
  using assms
  by (auto simp: duplicateFlags_def mkError_def split: option.splits if_splits)

lemma checkDuplicates_field:
  assumes "e \<in> set (checkDuplicates getId idKey et items errs0)"
  shows "e \<in> set errs0 \<or> field e = idKey"
proof -
  from assms have "e \<in> set errs0 \<or>
      (\<exists>k. e \<in> set (duplicateFlags getId idKey et (take k items) (items ! k)))"
    unfolding checkDuplicates_def dup_fold_snoc by auto
  then show ?thesis using duplicateFlags_field by blast
qed


lemma priorityErrors_field: "e \<in> set (priorityErrors c) \<Longrightarrow> field e = ''PriorityLevel''"
  by (simp add: priorityErrors_def mkError_def split: if_splits)

lemma attributesErrors_field: "e \<in> set (attributesErrors P c) \<Longrightarrow> field e = ''AttributesJSON''"
  unfolding attributesErrors_def
  by (cases "truthyStr (AttributesJSON c)"; cases "P (the (AttributesJSON c))")
     (simp_all add: mkError_def)

lemma validateClient_field:
  assumes "validateClient P ids c = Inr (es, ss)" and "e \<in> set es"
  shows "field e = ''PriorityLevel'' \<or> field e = ''AttributesJSON'' \<or>
         field e = ''RequestedTaskIDs''"
proof (cases "RequestedTaskIDs c")
  case Missing
  with assms have "e \<in> set (priorityErrors c) \<or> e \<in> set (attributesErrors P c)"
    by (auto simp: validateClient_def)
  then show ?thesis using priorityErrors_field attributesErrors_field by blast
next
  case (Arr tids)
  with assms have "e \<in> set (priorityErrors c) \<or> e \<in> set (attributesErrors P c) \<or>
      (\<exists>tid. e = mkError clients (ClientID c) ''RequestedTaskIDs''
                     (''Unknown TaskID: '' @ tid @ ''.''))"
    by (auto simp: validateClient_def)
  then show ?thesis using priorityErrors_field attributesErrors_field
    by (auto simp: mkError_def)
next
  case (Scalar s)
  with assms show ?thesis by (simp add: validateClient_def)
qed

lemma validateWorker_field:
  assumes "validateWorker w = Inr es" and "e \<in> set es"
  shows "field e = ''MaxLoadPerPhase'' \<or> field e = ''MaxConcurrent'' \<or>
         field e = ''AvailableSlots''"
proof -
  have h: "field e = ''MaxLoadPerPhase'' \<or> field e = ''MaxConcurrent''"
    if "e \<in> set (maxLoadErrors w @ maxConcurrentErrors w)"
    using that by (auto simp: maxLoadErrors_def maxConcurrentErrors_def mkError_def split: if_splits)
  show ?thesis
  proof (cases "AvailableSlots w")
    case Missing
    with assms show ?thesis using h by (auto simp: validateWorker_def)
  next
    case (Arr slots)
    with assms have "e \<in> set (maxLoadErrors w @ maxConcurrentErrors w) \<or>
                     field e = ''AvailableSlots''"
      by (auto simp: validateWorker_def slotsError_def split: if_splits)
    then show ?thesis using h by blast
  next
    case (Scalar s)
    with assms show ?thesis by (simp add: validateWorker_def)
  qed
qed

lemma validateTask_field:
  assumes "validateTask skills t = Inr es" and "e \<in> set es"
  shows "field e = ''Duration'' \<or> field e = ''RequiredSkills'' \<or>
         field e = ''PreferredPhases''"
proof -
  have d: "field x = ''Duration''" if "x \<in> set (durationErrors t)" for x
    using that by (auto simp: durationErrors_def mkError_def split: if_splits)
  from assms have "e \<in> set (durationErrors t) \<or> field e = ''RequiredSkills'' \<or>
                   field e = ''PreferredPhases''"
    by (auto simp: validateTask_def requiredSkillError_def mkError_def Let_def
             split: listField.splits if_splits)
  then show ?thesis using d by blast
qed

lemma coverage_only_in_last_pass:
  assumes "validateAllData P cs ws ts = Inr (errs, sugg)"
  shows "filter (\<lambda>e. field e = ''Skill Coverage'') errs =
         skillCoverage (allRequiredSkills ts) (allWorkerSkills ws)"
proof -
  from validateAllData_shape [OF assms]
  obtain rc :: "(ValidationError list \<times> string list) list" and rw rt
    where rc: "mapE (validateClient P (allTaskIds ts)) cs = Inr rc"
      and rw: "mapE validateWorker ws = Inr rw"
      and rt: "mapE (validateTask (allWorkerSkills ws)) ts = Inr rt"
      and errs: "errs = checkDuplicates TaskID ''TaskID'' tasks ts
                    (checkDuplicates WorkerID ''WorkerID'' workers ws
                       (checkDuplicates ClientID ''ClientID'' clients cs [])) @
                  concat (map fst rc) @ concat rw @ concat rt @
                  skillCoverage (allRequiredSkills ts) (allWorkerSkills ws)"
    by blast
  have d: "filter (\<lambda>e. field e = ''Skill Coverage'')
             (checkDuplicates TaskID ''TaskID'' tasks ts
                (checkDuplicates WorkerID ''WorkerID'' workers ws
                   (checkDuplicates ClientID ''ClientID'' clients cs []))) = []"
    by (auto simp: filter_empty_conv dest!: checkDuplicates_field)
  have c: "filter (\<lambda>e. field e = ''Skill Coverage'') (concat (map fst rc)) = []"
  proof -
    have "field e \<noteq> ''Skill Coverage''" if "p \<in> set rc" "e \<in> set (fst p)" for p e
    proof -
      from mapE_source [OF rc that(1)] obtain x where "validateClient P (allTaskIds ts) x = Inr p"
        by blast
      then have "validateClient P (allTaskIds ts) x = Inr (fst p, snd p)" by simp
      from validateClient_field [OF this that(2)] show ?thesis by auto
    qed
    then show ?thesis by (auto simp: filter_empty_conv)
  qed
  have w: "filter (\<lambda>e. field e = ''Skill Coverage'') (concat rw) = []"
  proof -
    have "field e \<noteq> ''Skill Coverage''" if "es \<in> set rw" "e \<in> set es" for es e
    proof -
      from mapE_source [OF rw that(1)] obtain x where "validateWorker x = Inr es" by blast
      from validateWorker_field [OF this that(2)] show ?thesis by auto
    qed
    then show ?thesis by (auto simp: filter_empty_conv)
  qed
  have t: "filter (\<lambda>e. field e = ''Skill Coverage'') (concat rt) = []"
  proof -
    have "field e \<noteq> ''Skill Coverage''" if "es \<in> set rt" "e \<in> set es" for es e
    proof -
      from mapE_source [OF rt that(1)] obtain x
        where "validateTask (allWorkerSkills ws) x = Inr es" by blast
      from validateTask_field [OF this that(2)] show ?thesis by auto
    qed
    then show ?thesis by (auto simp: filter_empty_conv)
  qed
  have g: "filter (\<lambda>e. field e = ''Skill Coverage'')
             (skillCoverage (allRequiredSkills ts) (allWorkerSkills ws)) =
           skillCoverage (allRequiredSkills ts) (allWorkerSkills ws)"
    by (simp add: skillCoverage_def coverageError_def mkError_def filter_map o_def)
  show ?thesis
    unfolding errs filter_append d c w t g by simp
qed



section \<open>Skill cross-reference\<close>

lemma distinct_filter_eq_one:
  assumes "distinct xs" and "x \<in> set xs"
  shows "length (filter (\<lambda>s. s = x) xs) = 1"
  using assms
proof (induction xs)
  case Nil
  then show ?case by simp
next
  case (Cons a xs)
  show ?case
  proof (cases "a = x")
    case True
    with Cons.prems have "x \<notin> set xs" by simp
    then have "filter (\<lambda>s. s = x) xs = []" by (auto simp: filter_empty_conv)
    with True show ?thesis by simp
  next
    case False
    with Cons show ?thesis by simp
  qed
qed

lemma field_requiredSkillError: "field (requiredSkillError t skill) = ''RequiredSkills''"
  by (simp add: requiredSkillError_def mkError_def)

lemma field_coverageError: "field (coverageError skill) = ''Skill Coverage''"
  by (simp add: coverageError_def mkError_def)

lemma coverageError_inj: "coverageError a = coverageError b \<longleftrightarrow> a = b"
  by (simp add: coverageError_def mkError_def)

lemma validateTask_required:
  assumes "validateTask W t = Inr es" and "RequiredSkills t = Arr skills"
  shows "filter (\<lambda>e. field e = ''RequiredSkills'') es =
         map (requiredSkillError t) (filter (\<lambda>skill. \<not> Set_has W skill) skills)"
proof -
  have d: "filter (\<lambda>e. field e = ''RequiredSkills'') (durationErrors t) = []"
    by (simp add: durationErrors_def mkError_def)
  have m: "filter (\<lambda>e. field e = ''RequiredSkills'') (map (requiredSkillError t) xs) =
           map (requiredSkillError t) xs" for xs
    by (simp add: filter_map o_def field_requiredSkillError)
  show ?thesis
  proof (cases "PreferredPhases t")
    case Missing
    with assms show ?thesis by (auto simp: validateTask_def d m)
  next
    case (Arr ps)
    with assms show ?thesis by (auto simp: validateTask_def d m mkError_def)
  next
    case (Scalar s)
    with assms show ?thesis by (simp add: validateTask_def)
  qed
qed

lemma coverage_count:
  assumes "skill \<in> set R" and "distinct R" and "\<not> Set_has W skill"
  shows "length (filter (\<lambda>e. e = coverageError skill) (skillCoverage R W)) = 1"
proof -
  have "filter (\<lambda>e. e = coverageError skill) (skillCoverage R W) =
        map coverageError (filter (\<lambda>s. s = skill) (filter (\<lambda>s. \<not> Set_has W s) R))"
    by (simp add: skillCoverage_def filter_map o_def coverageError_inj)
  moreover have "length (filter (\<lambda>s. s = skill) (filter (\<lambda>s. \<not> Set_has W s) R)) = 1"
    using assms by (intro distinct_filter_eq_one) auto
  ultimately show ?thesis by simp
qed

lemma worker_index_iff:
  "Set_has (allWorkerSkills ws) s \<longleftrightarrow> (\<exists>w\<in>set ws. s \<in> set (orEmpty (Skills w)))"
  by (auto simp: Set_has_def allWorkerSkills_def set_new_Set)

lemma required_index_iff:
  "s \<in> set (allRequiredSkills ts) \<longleftrightarrow> (\<exists>t\<in>set ts. s \<in> set (orEmpty (RequiredSkills t)))"
  by (auto simp: allRequiredSkills_def set_new_Set)

lemma coverage_count_zero:
  assumes "skill \<notin> set R \<or> Set_has W skill"
  shows "length (filter (\<lambda>e. e = coverageError skill) (skillCoverage R W)) = 0"
proof -
  have "filter (\<lambda>e. e = coverageError skill) (skillCoverage R W) =
        map coverageError (filter (\<lambda>s. s = skill) (filter (\<lambda>s. \<not> Set_has W s) R))"
    by (simp add: skillCoverage_def filter_map o_def coverageError_inj)
  moreover have "filter (\<lambda>s. s = skill) (filter (\<lambda>s. \<not> Set_has W s) R) = []"
    using assms by (auto simp: filter_empty_conv)
  ultimately show ?thesis by simp
qed

lemma mapE_block:
  assumes "mapE f xs = Inr ys" and "x \<in> set xs"
  shows "\<exists>y a b. f x = Inr y \<and> ys = a @ y # b"
  using assms
proof (induction xs arbitrary: ys)
  case Nil
  then show ?case by simp
next
  case (Cons z zs)
  from Cons.prems(1) obtain y0 ys0 where z: "f z = Inr y0" and zs: "mapE f zs = Inr ys0"
    and ys: "ys = y0 # ys0"
    by (auto split: sum.splits)
  show ?case
  proof (cases "x = z")
    case True
    with z ys have "f x = Inr y0 \<and> ys = [] @ y0 # ys0" by simp
    then show ?thesis by blast
  next
    case False
    with Cons.prems(2) have "x \<in> set zs" by simp
    from Cons.IH [OF zs this] obtain y a b where "f x = Inr y" and "ys0 = a @ y # b"
      by blast
    with ys have "f x = Inr y \<and> ys = (y0 # a) @ y # b" by simp
    then show ?thesis by blast
  qed
qed

lemma validateAllData_task_block:
  assumes "validateAllData P cs ws ts = Inr (errs, sugg)" and "t \<in> set ts"
  shows "\<exists>es pre post. validateTask (allWorkerSkills ws) t = Inr es \<and> errs = pre @ es @ post"
proof -
  from validateAllData_shape [OF assms(1)]
  obtain rc :: "(ValidationError list \<times> string list) list" and rw rt
    where rt: "mapE (validateTask (allWorkerSkills ws)) ts = Inr rt"
      and errs: "errs = checkDuplicates TaskID ''TaskID'' tasks ts
                    (checkDuplicates WorkerID ''WorkerID'' workers ws
                       (checkDuplicates ClientID ''ClientID'' clients cs [])) @
                  concat (map fst rc) @ concat rw @ concat rt @
                  skillCoverage (allRequiredSkills ts) (allWorkerSkills ws)"
    by blast
  from mapE_block [OF rt assms(2)] obtain es a b
    where es: "validateTask (allWorkerSkills ws) t = Inr es" and split: "rt = a @ es # b"
    by blast
  have "errs = (checkDuplicates TaskID ''TaskID'' tasks ts
                    (checkDuplicates WorkerID ''WorkerID'' workers ws
                       (checkDuplicates ClientID ''ClientID'' clients cs [])) @
                concat (map fst rc) @ concat rw @ concat a) @ es @
               (concat b @ skillCoverage (allRequiredSkills ts) (allWorkerSkills ws))"
    unfolding errs split by simp
  with es show ?thesis by blast
qed

text \<open>
  C3. In a completed run, the pass over a task puts into the error list one RequiredSkills
  error for each entry of the task's RequiredSkills array that is in no worker's Skills, in
  the order of the array and once per repetition of an entry, and none for an entry some
  worker offers. The error list holds exactly one Global "Skill Coverage" error for a skill
  that some task requires and no worker offers, and none for any other skill.
\<close>

theorem required_skill_errors_per_entry:
  assumes "validateAllData P cs ws ts = Inr (errs, sugg)"
      and "t \<in> set ts" and "RequiredSkills t = Arr skills"
  shows "(\<exists>es pre post.
            validateTask (allWorkerSkills ws) t = Inr es \<and> errs = pre @ es @ post \<and>
            filter (\<lambda>e. field e = ''RequiredSkills'') es =
            map (requiredSkillError t)
                (filter (\<lambda>s. \<forall>w\<in>set ws. s \<notin> set (orEmpty (Skills w))) skills)) \<and>
         length (filter (\<lambda>e. e = coverageError skill) errs) =
           (if (\<exists>u\<in>set ts. skill \<in> set (orEmpty (RequiredSkills u))) \<and>
               (\<forall>w\<in>set ws. skill \<notin> set (orEmpty (Skills w)))
            then 1 else 0)"
proof -
  from validateAllData_task_block [OF assms(1,2)] obtain es pre post
    where es: "validateTask (allWorkerSkills ws) t = Inr es" and blk: "errs = pre @ es @ post"
    by blast
  have "filter (\<lambda>e. field e = ''RequiredSkills'') es =
        map (requiredSkillError t) (filter (\<lambda>s. \<not> Set_has (allWorkerSkills ws) s) skills)"
    by (rule validateTask_required [OF es assms(3)])
  also have "(\<lambda>s. \<not> Set_has (allWorkerSkills ws) s) =
             (\<lambda>s. \<forall>w\<in>set ws. s \<notin> set (orEmpty (Skills w)))"
    by (auto simp: worker_index_iff)
  finally have req: "filter (\<lambda>e. field e = ''RequiredSkills'') es =
        map (requiredSkillError t)
            (filter (\<lambda>s. \<forall>w\<in>set ws. s \<notin> set (orEmpty (Skills w))) skills)" .
  have "filter (\<lambda>e. e = coverageError skill) errs =
        filter (\<lambda>e. e = coverageError skill) (filter (\<lambda>e. field e = ''Skill Coverage'') errs)"
    by (auto simp: filter_filter field_coverageError intro!: filter_cong)
  also have "\<dots> = filter (\<lambda>e. e = coverageError skill)
                     (skillCoverage (allRequiredSkills ts) (allWorkerSkills ws))"
    by (simp only: coverage_only_in_last_pass [OF assms(1)])
  finally have cov: "length (filter (\<lambda>e. e = coverageError skill) errs) =
      length (filter (\<lambda>e. e = coverageError skill)
                (skillCoverage (allRequiredSkills ts) (allWorkerSkills ws)))"
    by simp
  have cnt: "length (filter (\<lambda>e. e = coverageError skill)
                (skillCoverage (allRequiredSkills ts) (allWorkerSkills ws))) =
             (if (\<exists>u\<in>set ts. skill \<in> set (orEmpty (RequiredSkills u))) \<and>
                 (\<forall>w\<in>set ws. skill \<notin> set (orEmpty (Skills w)))
              then 1 else 0)"
  proof (cases "skill \<in> set (allRequiredSkills ts) \<and> \<not> Set_has (allWorkerSkills ws) skill")
    case True
    then have "length (filter (\<lambda>e. e = coverageError skill)
                (skillCoverage (allRequiredSkills ts) (allWorkerSkills ws))) = 1"
      by (intro coverage_count) (simp_all add: allRequiredSkills_def distinct_new_Set)
    moreover from True have "(\<exists>u\<in>set ts. skill \<in> set (orEmpty (RequiredSkills u))) \<and>
                 (\<forall>w\<in>set ws. skill \<notin> set (orEmpty (Skills w)))"
      by (auto simp: required_index_iff worker_index_iff)
    ultimately show ?thesis by simp
  next
    case False
    then have "length (filter (\<lambda>e. e = coverageError skill)
                (skillCoverage (allRequiredSkills ts) (allWorkerSkills ws))) = 0"
      by (intro coverage_count_zero) auto
    moreover from False have "\<not> ((\<exists>u\<in>set ts. skill \<in> set (orEmpty (RequiredSkills u))) \<and>
                 (\<forall>w\<in>set ws. skill \<notin> set (orEmpty (Skills w))))"
      by (auto simp: required_index_iff worker_index_iff)
    ultimately show ?thesis by simp
  qed
  from es blk req have "\<exists>es pre post.
            validateTask (allWorkerSkills ws) t = Inr es \<and> errs = pre @ es @ post \<and>
            filter (\<lambda>e. field e = ''RequiredSkills'') es =
            map (requiredSkillError t)
                (filter (\<lambda>s. \<forall>w\<in>set ws. s \<notin> set (orEmpty (Skills w))) skills)"
    by blast
  then show ?thesis using cov cnt by simp
qed


theorem required_skill_errors_per_entry_witness:
  "validateAllData sampleParser [] [sampleWorker (Arr []) None None]
     [sampleTask [''Rust'', ''Go'', ''Rust'']] =
     Inr ([requiredSkillError (sampleTask [''Rust'', ''Go'', ''Rust'']) ''Rust'',
           requiredSkillError (sampleTask [''Rust'', ''Go'', ''Rust'']) ''Rust'',
           coverageError ''Rust''], []) \<and>
   RequiredSkills (sampleTask [''Rust'', ''Go'', ''Rust'']) = Arr [''Rust'', ''Go'', ''Rust''] \<and>
   (\<exists>es pre post.
      validateTask (allWorkerSkills [sampleWorker (Arr []) None None])
        (sampleTask [''Rust'', ''Go'', ''Rust'']) = Inr es \<and>
      [requiredSkillError (sampleTask [''Rust'', ''Go'', ''Rust'']) ''Rust'',
       requiredSkillError (sampleTask [''Rust'', ''Go'', ''Rust'']) ''Rust'',
       coverageError ''Rust''] = pre @ es @ post \<and>
      filter (\<lambda>e. field e = ''RequiredSkills'') es =
      [requiredSkillError (sampleTask [''Rust'', ''Go'', ''Rust'']) ''Rust'',
       requiredSkillError (sampleTask [''Rust'', ''Go'', ''Rust'']) ''Rust'']) \<and>
   length (filter (\<lambda>e. e = coverageError ''Rust'')
             [requiredSkillError (sampleTask [''Rust'', ''Go'', ''Rust'']) ''Rust'',
              requiredSkillError (sampleTask [''Rust'', ''Go'', ''Rust'']) ''Rust'',
              coverageError ''Rust'']) = 1 \<and>
   length (filter (\<lambda>e. e = coverageError ''Go'')
             [requiredSkillError (sampleTask [''Rust'', ''Go'', ''Rust'']) ''Rust'',
              requiredSkillError (sampleTask [''Rust'', ''Go'', ''Rust'']) ''Rust'',
              coverageError ''Rust'']) = 0"
proof -
  let ?t = "sampleTask [''Rust'', ''Go'', ''Rust'']"
  let ?w = "sampleWorker (Arr []) None None"
  have ws: "allWorkerSkills [?w] = [''Go'']"
    by (simp add: allWorkerSkills_def sampleWorker_def new_Set_def Set_add_def)
  have rs: "allRequiredSkills [?t] = [''Rust'', ''Go'']"
    by (simp add: allRequiredSkills_def sampleTask_def new_Set_def Set_add_def)
  have dups: "checkDuplicates TaskID ''TaskID'' tasks [?t]
                (checkDuplicates WorkerID ''WorkerID'' workers [?w]
                   (checkDuplicates ClientID ''ClientID'' clients [] [])) = []"
    by (simp add: checkDuplicates_def dupStep_def sampleTask_def sampleWorker_def
        Set_add_def Set_has_def)
  have w: "validateWorker ?w = Inr []"
    by (simp add: validateWorker_def sampleWorker_def maxLoadErrors_def maxConcurrentErrors_def)
  have t: "validateTask [''Go''] ?t = Inr [requiredSkillError ?t ''Rust'', requiredSkillError ?t ''Rust'']"
    by (simp add: validateTask_def sampleTask_def durationErrors_def Set_has_def
        rangeFormat_def allDigits_def isDigit_def)
  have run: "validateAllData sampleParser [] [?w] [?t] =
             Inr ([requiredSkillError ?t ''Rust'', requiredSkillError ?t ''Rust'',
                   coverageError ''Rust''], [])"
    by (simp add: validateAllData_def ws rs dups w t skillCoverage_def Set_has_def)
  have rq: "RequiredSkills ?t = Arr [''Rust'', ''Go'', ''Rust'']"
    by (simp add: sampleTask_def)
  have unc: "filter (\<lambda>s. \<forall>w\<in>set [?w]. s \<notin> set (orEmpty (Skills w))) [''Rust'', ''Go'', ''Rust''] =
             [''Rust'', ''Rust'']"
    by (simp add: sampleWorker_def)
  have rust: "(\<exists>u\<in>set [?t]. ''Rust'' \<in> set (orEmpty (RequiredSkills u))) \<and>
              (\<forall>w\<in>set [?w]. ''Rust'' \<notin> set (orEmpty (Skills w)))"
    by (simp add: sampleTask_def sampleWorker_def)
  have go: "\<not> ((\<exists>u\<in>set [?t]. ''Go'' \<in> set (orEmpty (RequiredSkills u))) \<and>
              (\<forall>w\<in>set [?w]. ''Go'' \<notin> set (orEmpty (Skills w))))"
    by (simp add: sampleWorker_def)
  note a = required_skill_errors_per_entry [OF run _ rq, of "''Rust''", unfolded unc if_P [OF rust]]
  note b = required_skill_errors_per_entry [OF run _ rq, of "''Go''", unfolded if_not_P [OF go]]
  from a b run rq show ?thesis by simp
qed

text \<open>
  A task that lists an uncovered skill twice gets two per-task errors, not one: the
  per-task errors follow the entries of the array.
\<close>

theorem repeated_skill_flagged_twice:
  "validateAllData sampleParser [] [sampleWorker (Arr []) None None]
     [sampleTask [''Rust'', ''Rust'']] =
   Inr ([requiredSkillError (sampleTask [''Rust'', ''Rust'']) ''Rust'',
         requiredSkillError (sampleTask [''Rust'', ''Rust'']) ''Rust'',
         coverageError ''Rust''], [])"
proof -
  let ?t = "sampleTask [''Rust'', ''Rust'']"
  let ?w = "sampleWorker (Arr []) None None"
  have ws: "allWorkerSkills [?w] = [''Go'']"
    by (simp add: allWorkerSkills_def sampleWorker_def new_Set_def Set_add_def)
  have rs: "allRequiredSkills [?t] = [''Rust'']"
    by (simp add: allRequiredSkills_def sampleTask_def new_Set_def Set_add_def)
  have dups: "checkDuplicates TaskID ''TaskID'' tasks [?t]
                (checkDuplicates WorkerID ''WorkerID'' workers [?w]
                   (checkDuplicates ClientID ''ClientID'' clients [] [])) = []"
    by (simp add: checkDuplicates_def dupStep_def sampleTask_def sampleWorker_def
        Set_add_def Set_has_def)
  have w: "validateWorker ?w = Inr []"
    by (simp add: validateWorker_def sampleWorker_def maxLoadErrors_def maxConcurrentErrors_def)
  have t: "validateTask [''Go''] ?t = Inr [requiredSkillError ?t ''Rust'', requiredSkillError ?t ''Rust'']"
    by (simp add: validateTask_def sampleTask_def durationErrors_def Set_has_def
        rangeFormat_def allDigits_def isDigit_def)
  show ?thesis
    by (simp add: validateAllData_def ws rs dups w t skillCoverage_def Set_has_def)
qed


section \<open>AvailableSlots\<close>

lemma validateWorker_slots:
  assumes "AvailableSlots w = Arr slots"
  shows "validateWorker w =
         Inr (maxLoadErrors w @ maxConcurrentErrors w @
              (if list_ex isNaN_Number slots then [slotsError w slots] else []))"
  using assms by (simp add: validateWorker_def)

lemma head_not_slots:
  "filter (\<lambda>e. field e = ''AvailableSlots'') (maxLoadErrors w @ maxConcurrentErrors w) = []"
  by (simp add: maxLoadErrors_def maxConcurrentErrors_def mkError_def)

lemma field_slotsError: "field (slotsError w slots) = ''AvailableSlots''"
  by (simp add: slotsError_def)

text \<open>
  C5. In a completed run, a worker whose AvailableSlots array holds an element that does not
  parse as a number gets one AvailableSlots error, and its suggestion is the elements with
  every non-digit character removed, joined with ", ".
\<close>

theorem slots_error_suggestion:
  assumes "validateAllData P cs ws ts = Inr (errs, sugg)"
      and "w \<in> set ws" and "AvailableSlots w = Arr slots" and "list_ex isNaN_Number slots"
  shows "\<exists>es. validateWorker w = Inr es \<and> set es \<subseteq> set errs \<and>
              filter (\<lambda>e. field e = ''AvailableSlots'') es =
              [\<lparr>rowId = None, entityType = workers, errId = WorkerID w,
                field = ''AvailableSlots'', message = ''Contains non-numeric values.'',
                suggestion =
                  Some (join '', '' (map (\<lambda>s. filter isDigit (String' s)) slots))\<rparr>]"
proof -
  from validateAllData_worker [OF assms(1,2)] obtain es
    where es: "validateWorker w = Inr es" and sub: "set es \<subseteq> set errs"
    by blast
  from es assms(3,4) have "es = maxLoadErrors w @ maxConcurrentErrors w @ [slotsError w slots]"
    by (simp add: validateWorker_slots)
  then have "filter (\<lambda>e. field e = ''AvailableSlots'') es = [slotsError w slots]"
    using head_not_slots [of w] by (simp add: field_slotsError)
  then show ?thesis using es sub
    by (simp add: slotsError_def slotSuggestion_def stripNonDigits_def)
qed



theorem slots_error_suggestion_witness:
  "validateAllData sampleParser []
     [sampleWorker (Arr [VStr ''1'', VStr ''x2'', VStr ''3'']) None None] [] =
     Inr ([slotsError (sampleWorker (Arr [VStr ''1'', VStr ''x2'', VStr ''3'']) None None)
             [VStr ''1'', VStr ''x2'', VStr ''3'']], []) \<and>
   list_ex isNaN_Number [VStr ''1'', VStr ''x2'', VStr ''3''] \<and>
   (\<exists>es. validateWorker (sampleWorker (Arr [VStr ''1'', VStr ''x2'', VStr ''3'']) None None) =
           Inr es \<and>
         filter (\<lambda>e. field e = ''AvailableSlots'') es =
         [\<lparr>rowId = None, entityType = workers, errId = Some ''W1'',
           field = ''AvailableSlots'', message = ''Contains non-numeric values.'',
           suggestion = Some ''1, 2, 3''\<rparr>])"
proof -
  let ?slots = "[VStr ''1'', VStr ''x2'', VStr ''3'']"
  let ?w = "sampleWorker (Arr ?slots) None None"
  have bad: "list_ex isNaN_Number ?slots"
    by (simp add: stringIsNumeric_def trim_def isWhiteSpace_def strDecimal_def
        unsignedDecimal_def nonDecimal_def isDigit_def exponentOpt_def)
  have w: "validateWorker ?w = Inr [slotsError ?w ?slots]"
    using bad by (simp add: validateWorker_def sampleWorker_def maxLoadErrors_def
        maxConcurrentErrors_def)
  have dups: "checkDuplicates TaskID ''TaskID'' tasks []
                (checkDuplicates WorkerID ''WorkerID'' workers [?w]
                   (checkDuplicates ClientID ''ClientID'' clients [] [])) = []"
    by (simp add: checkDuplicates_def dupStep_def sampleWorker_def Set_add_def Set_has_def)
  have run: "validateAllData sampleParser [] [?w] [] = Inr ([slotsError ?w ?slots], [])"
    by (simp add: validateAllData_def w dups skillCoverage_def allRequiredSkills_def new_Set_def)
  have sl: "AvailableSlots ?w = Arr ?slots"
    by (simp add: sampleWorker_def)
  have sug: "join '', '' (map (\<lambda>s. filter isDigit (String' s)) ?slots) = ''1, 2, 3''"
    by (simp add: isDigit_def)
  have wid: "WorkerID ?w = Some ''W1''"
    by (simp add: sampleWorker_def)
  from slots_error_suggestion [OF run _ sl bad] run bad show ?thesis
    unfolding sug wid by auto
qed

text \<open>
  C10. In a completed run, a worker whose AvailableSlots array holds two or more elements
  that do not parse as numbers still gets exactly one AvailableSlots error, and the
  suggestion of that error has one piece per element of the array, numeric elements
  included: piece \<open>i\<close> is element \<open>i\<close> without its non-digit characters.
\<close>

theorem slots_error_once:
  assumes "validateAllData P cs ws ts = Inr (errs, sugg)"
      and "w \<in> set ws" and "AvailableSlots w = Arr slots"
      and "2 \<le> length (filter isNaN_Number slots)"
  shows "\<exists>es. validateWorker w = Inr es \<and> set es \<subseteq> set errs \<and>
              length (filter (\<lambda>e. field e = ''AvailableSlots'') es) = 1 \<and>
              (\<forall>e\<in>set es. field e = ''AvailableSlots'' \<longrightarrow>
                 (\<exists>pieces. suggestion e = Some (join '', '' pieces) \<and>
                    length pieces = length slots \<and>
                    (\<forall>i<length slots. pieces ! i = stripNonDigits (String' (slots ! i)))))"
proof -
  from validateAllData_worker [OF assms(1,2)] obtain es
    where es: "validateWorker w = Inr es" and sub: "set es \<subseteq> set errs"
    by blast
  from assms(4) have "filter isNaN_Number slots \<noteq> []" by auto
  then have bad: "list_ex isNaN_Number slots"
    by (auto simp: filter_empty_conv list_ex_iff)
  with es assms(3) have eq: "es = maxLoadErrors w @ maxConcurrentErrors w @ [slotsError w slots]"
    by (simp add: validateWorker_slots)
  then have f: "filter (\<lambda>e. field e = ''AvailableSlots'') es = [slotsError w slots]"
    using head_not_slots [of w] by (simp add: field_slotsError)
  have only: "e = slotsError w slots" if "e \<in> set es" "field e = ''AvailableSlots''" for e
  proof -
    from that have "e \<in> set (filter (\<lambda>e. field e = ''AvailableSlots'') es)" by simp
    then show ?thesis unfolding f by simp
  qed
  have pieces: "\<exists>pieces. suggestion (slotsError w slots) = Some (join '', '' pieces) \<and>
                  length pieces = length slots \<and>
                  (\<forall>i<length slots. pieces ! i = stripNonDigits (String' (slots ! i)))"
    by (rule exI [of _ "map (\<lambda>s. stripNonDigits (String' s)) slots"])
       (simp add: slotsError_def slotSuggestion_def)
  show ?thesis
    using es sub f pieces only by auto
qed



theorem slots_error_once_witness:
  "validateAllData sampleParser []
     [sampleWorker (Arr [VStr ''a1'', VStr ''2'', VStr ''b3'']) None None] [] =
     Inr ([slotsError (sampleWorker (Arr [VStr ''a1'', VStr ''2'', VStr ''b3'']) None None)
             [VStr ''a1'', VStr ''2'', VStr ''b3'']], []) \<and>
   2 \<le> length (filter isNaN_Number [VStr ''a1'', VStr ''2'', VStr ''b3'']) \<and>
   (\<exists>es. validateWorker (sampleWorker (Arr [VStr ''a1'', VStr ''2'', VStr ''b3'']) None None) =
           Inr es \<and>
         length (filter (\<lambda>e. field e = ''AvailableSlots'') es) = 1 \<and>
         (\<forall>e\<in>set es. field e = ''AvailableSlots'' \<longrightarrow>
            (\<exists>pieces. suggestion e = Some (join '', '' pieces) \<and> length pieces = 3)))"
proof -
  let ?slots = "[VStr ''a1'', VStr ''2'', VStr ''b3'']"
  let ?w = "sampleWorker (Arr ?slots) None None"
  have nums: "\<not> stringIsNumeric ''a1''" "stringIsNumeric ''2''" "\<not> stringIsNumeric ''b3''"
    by (simp_all add: stringIsNumeric_def trim_def isWhiteSpace_def strDecimal_def
        unsignedDecimal_def nonDecimal_def isDigit_def exponentOpt_def)
  have two: "2 \<le> length (filter isNaN_Number ?slots)"
    by (simp add: nums)
  have w: "validateWorker ?w = Inr [slotsError ?w ?slots]"
    by (simp add: validateWorker_def sampleWorker_def maxLoadErrors_def
        maxConcurrentErrors_def nums)
  have dups: "checkDuplicates TaskID ''TaskID'' tasks []
                (checkDuplicates WorkerID ''WorkerID'' workers [?w]
                   (checkDuplicates ClientID ''ClientID'' clients [] [])) = []"
    by (simp add: checkDuplicates_def dupStep_def sampleWorker_def Set_add_def Set_has_def)
  have run: "validateAllData sampleParser [] [?w] [] = Inr ([slotsError ?w ?slots], [])"
    by (simp add: validateAllData_def w dups skillCoverage_def allRequiredSkills_def new_Set_def)
  have sl: "AvailableSlots ?w = Arr ?slots"
    by (simp add: sampleWorker_def)
  from slots_error_once [OF run _ sl two] obtain es
    where es: "validateWorker ?w = Inr es"
      and one: "length (filter (\<lambda>e. field e = ''AvailableSlots'') es) = 1"
      and pc: "\<forall>e\<in>set es. field e = ''AvailableSlots'' \<longrightarrow>
                 (\<exists>pieces. suggestion e = Some (join '', '' pieces) \<and>
                    length pieces = length ?slots \<and>
                    (\<forall>i<length ?slots. pieces ! i = stripNonDigits (String' (?slots ! i))))"
    by auto
  from pc have "\<forall>e\<in>set es. field e = ''AvailableSlots'' \<longrightarrow>
                 (\<exists>pieces. suggestion e = Some (join '', '' pieces) \<and> length pieces = 3)"
    by fastforce
  with es one run two show ?thesis by blast
qed

section \<open>Totality\<close>

lemma validate_empty: "validateAllData P [] [] [] = Inr ([], [])"
  by (simp add: validateAllData_def checkDuplicates_def skillCoverage_def
      allRequiredSkills_def new_Set_def)

lemma validateClient_returns:
  assumes "\<forall>s. RequestedTaskIDs c \<noteq> Scalar s"
  shows "\<exists>r. validateClient P ids c = Inr r"
  using assms by (cases "RequestedTaskIDs c") (simp_all add: validateClient_def)

lemma validateWorker_returns:
  assumes "\<forall>s. AvailableSlots w \<noteq> Scalar s"
  shows "\<exists>r. validateWorker w = Inr r"
  using assms by (cases "AvailableSlots w") (simp_all add: validateWorker_def)

lemma validateTask_returns:
  assumes "\<forall>s. RequiredSkills t \<noteq> Scalar s" and "\<forall>s. PreferredPhases t \<noteq> Scalar s"
  shows "\<exists>r. validateTask W t = Inr r"
  using assms
  by (cases "RequiredSkills t"; cases "PreferredPhases t") (simp_all add: validateTask_def)

lemma validate_returns_on_arrays:
  assumes "\<forall>c\<in>set cs. \<forall>s. RequestedTaskIDs c \<noteq> Scalar s"
      and "\<forall>w\<in>set ws. \<forall>s. AvailableSlots w \<noteq> Scalar s"
      and "\<forall>t\<in>set ts. (\<forall>s. RequiredSkills t \<noteq> Scalar s) \<and> (\<forall>s. PreferredPhases t \<noteq> Scalar s)"
  shows "\<exists>r. validateAllData P cs ws ts = Inr r"
proof -
  from assms(1) obtain rc where "mapE (validateClient P (allTaskIds ts)) cs = Inr rc"
    using mapE_total [of cs "validateClient P (allTaskIds ts)"] validateClient_returns by blast
  moreover from assms(2) obtain rw where "mapE validateWorker ws = Inr rw"
    using mapE_total [of ws validateWorker] validateWorker_returns by blast
  moreover from assms(3) obtain rt where "mapE (validateTask (allWorkerSkills ws)) ts = Inr rt"
    using mapE_total [of ts "validateTask (allWorkerSkills ws)"] validateTask_returns by blast
  ultimately show ?thesis by (simp add: validateAllData_def)
qed

lemma malformed_json_is_diagnosed:
  assumes "AttributesJSON c = Some a" and "a \<noteq> []" and "P a = Inl e"
  shows "attributesErrors P c =
         [mkError clients (ClientID c) ''AttributesJSON'' ''Invalid JSON format.'']"
  using assms unfolding attributesErrors_def by simp

text \<open>
  C7. The engine returns for the empty store and turns unparseable AttributesJSON into a
  diagnostic, but it does not return for every store: a worker whose AvailableSlots field
  holds a string (the comma-joined text the cell editor writes) makes
  \<^verbatim>\<open>w.AvailableSlots?.some(...)\<close> throw a TypeError, and no error list is produced.
\<close>

theorem validate_throws_on_scalar_slots:
  "validateAllData sampleParser [] [sampleWorker (Scalar ''1,2'') None None] [] = Inl TypeError"
  by (simp add: validateAllData_def validateWorker_def sampleWorker_def)



section \<open>Determinism of a validation run\<close>








section \<open>Accepting a translated rule\<close>

lemma builtin_has_both_fields:
  "\<exists>ty pa. getProp (generateRuleFromAI_builtin prompt) ''type'' = Inr (Some ty) \<and>
           getProp (generateRuleFromAI_builtin prompt) ''params'' = Inr (Some pa) \<and>
           truthy (Some ty) \<and> truthy (Some pa)"
  by (simp add: generateRuleFromAI_builtin_def Let_def)

lemma builtin_appends_complete_rule:
  assumes "handleNaturalLanguageConvert_builtin newId rules text = Some rules'"
  shows "\<exists>ty pa. rules' = rules @ [\<lparr>id' = newId, spreadType = Some ty, spreadParams = Some pa\<rparr>]"
proof -
  from builtin_has_both_fields obtain ty pa where
    "getProp (generateRuleFromAI_builtin
        (''Convert the following rule into a JSON object with '' @ [CHR 0x27] @ ''type'' @
         [CHR 0x27] @ '' and '' @ [CHR 0x27] @ ''params'' @ [CHR 0x27] @
         '' keys. Rule: '' @ [CHR 0x22] @ text @ [CHR 0x22])) ''type'' = Inr (Some ty)"
    "getProp (generateRuleFromAI_builtin
        (''Convert the following rule into a JSON object with '' @ [CHR 0x27] @ ''type'' @
         [CHR 0x27] @ '' and '' @ [CHR 0x27] @ ''params'' @ [CHR 0x27] @
         '' keys. Rule: '' @ [CHR 0x22] @ text @ [CHR 0x22])) ''params'' = Inr (Some pa)"
    by blast
  with assms show ?thesis
    unfolding handleNaturalLanguageConvert_builtin_def Let_def
    by (cases "text = []") auto
qed

text \<open>
  C8. The registry's update callback is called only with the old rules followed by one rule
  built from a \<^verbatim>\<open>type\<close> and a \<^verbatim>\<open>params\<close> that the translator's answer both has; when
  the answer lacks either of them, the callback is not called and the failure
  "Invalid rule format from AI" is reported.
\<close>

theorem translated_rule_needs_both_fields:
  "(\<forall>rules'. onUpdate (handleNaturalLanguageConvert translate newId rules text) = Some rules' \<longrightarrow>
      (\<exists>answer ty pa. translate text = Inr answer \<and>
         getProp answer ''type'' = Inr (Some ty) \<and> getProp answer ''params'' = Inr (Some pa) \<and>
         rules' = rules @ [\<lparr>id' = newId, type' = ty, params = pa\<rparr>])) \<and>
   (\<forall>answer. trim text \<noteq> [] \<and> translate text = Inr answer \<and>
      (getProp answer ''type'' = Inr None \<or> getProp answer ''params'' = Inr None) \<longrightarrow>
      onUpdate (handleNaturalLanguageConvert translate newId rules text) = None \<and>
      toasted (handleNaturalLanguageConvert translate newId rules text) =
        FailedToGenerate (Error ''Invalid rule format from AI''))"
proof (intro conjI allI impI)
  fix rules'
  assume a: "onUpdate (handleNaturalLanguageConvert translate newId rules text) = Some rules'"
  show "\<exists>answer ty pa. translate text = Inr answer \<and>
         getProp answer ''type'' = Inr (Some ty) \<and> getProp answer ''params'' = Inr (Some pa) \<and>
         rules' = rules @ [\<lparr>id' = newId, type' = ty, params = pa\<rparr>]"
  proof (cases "translate text")
    case (Inl e)
    with a show ?thesis
      by (simp add: handleNaturalLanguageConvert_def Let_def split: if_splits)
  next
    case (Inr answer)
    show ?thesis
    proof (cases "getProp answer ''type''")
      case (Inl e)
      with a Inr show ?thesis
        by (simp add: handleNaturalLanguageConvert_def Let_def split: if_splits)
    next
      case ty: (Inr ty)
      show ?thesis
      proof (cases "getProp answer ''params''")
        case (Inl e)
        with a Inr ty show ?thesis
          by (simp add: handleNaturalLanguageConvert_def Let_def split: if_splits)
      next
        case pa: (Inr pa)
        from a Inr ty pa have t: "truthy ty" and p: "truthy pa"
          and r: "rules' = rules @ [\<lparr>id' = newId, type' = the ty, params = the pa\<rparr>]"
          by (simp_all add: handleNaturalLanguageConvert_def Let_def split: if_splits)
        from t obtain ty' where "ty = Some ty'" by (cases ty) simp_all
        moreover from p obtain pa' where "pa = Some pa'" by (cases pa) simp_all
        ultimately show ?thesis using Inr ty pa r by simp
      qed
    qed
  qed
next
  fix answer
  assume b: "trim text \<noteq> [] \<and> translate text = Inr answer \<and>
      (getProp answer ''type'' = Inr None \<or> getProp answer ''params'' = Inr None)"
  then have nn: "answer \<noteq> JNull" by auto
  then obtain ty pa where ty: "getProp answer ''type'' = Inr ty"
    and pa: "getProp answer ''params'' = Inr pa"
    by (cases answer) simp_all
  from b ty pa have "\<not> truthy ty \<or> \<not> truthy pa" by auto
  with b ty pa
  show "onUpdate (handleNaturalLanguageConvert translate newId rules text) = None"
    by (auto simp: handleNaturalLanguageConvert_def Let_def)
  from b ty pa \<open>\<not> truthy ty \<or> \<not> truthy pa\<close>
  show "toasted (handleNaturalLanguageConvert translate newId rules text) =
        FailedToGenerate (Error ''Invalid rule format from AI'')"
    by (auto simp: handleNaturalLanguageConvert_def Let_def)
qed



theorem translated_rule_needs_both_fields_witness:
  "onUpdate (handleNaturalLanguageConvert
      (\<lambda>p. Inr (JObject [(''type'', JString ''CO_RUN''),
                          (''params'', JObject [(''taskIds'', JArray [JString ''T1''])])]))
      ''id_9'' [] ''T1 alone'') =
     Some [\<lparr>id' = ''id_9'', type' = JString ''CO_RUN'',
            params = JObject [(''taskIds'', JArray [JString ''T1''])]\<rparr>] \<and>
   (\<exists>answer ty pa.
      getProp answer ''type'' = Inr (Some ty) \<and> getProp answer ''params'' = Inr (Some pa) \<and>
      [\<lparr>id' = ''id_9'', type' = JString ''CO_RUN'',
        params = JObject [(''taskIds'', JArray [JString ''T1''])]\<rparr>] =
      [] @ [\<lparr>id' = ''id_9'', type' = ty, params = pa\<rparr>]) \<and>
   trim ''T1 alone'' \<noteq> [] \<and>
   getProp (JObject [(''type'', JString ''CO_RUN'')]) ''params'' = Inr None \<and>
   onUpdate (handleNaturalLanguageConvert (\<lambda>p. Inr (JObject [(''type'', JString ''CO_RUN'')]))
      ''id_9'' [] ''T1 alone'') = None \<and>
   toasted (handleNaturalLanguageConvert (\<lambda>p. Inr (JObject [(''type'', JString ''CO_RUN'')]))
      ''id_9'' [] ''T1 alone'') = FailedToGenerate (Error ''Invalid rule format from AI'')"
proof -
  have tr: "trim ''T1 alone'' \<noteq> []"
    by (simp add: trim_def isWhiteSpace_def)
  have acc: "onUpdate (handleNaturalLanguageConvert
      (\<lambda>p. Inr (JObject [(''type'', JString ''CO_RUN''),
                          (''params'', JObject [(''taskIds'', JArray [JString ''T1''])])]))
      ''id_9'' [] ''T1 alone'') =
     Some [\<lparr>id' = ''id_9'', type' = JString ''CO_RUN'',
            params = JObject [(''taskIds'', JArray [JString ''T1''])]\<rparr>]"
    using tr by (simp add: handleNaturalLanguageConvert_def)
  have np: "getProp (JObject [(''type'', JString ''CO_RUN'')]) ''params'' = Inr None"
    by simp
  note a = translated_rule_needs_both_fields
    [of "\<lambda>p. Inr (JObject [(''type'', JString ''CO_RUN''),
                          (''params'', JObject [(''taskIds'', JArray [JString ''T1''])])])"
        "''id_9''" "[]" "''T1 alone''", THEN conjunct1, rule_format, OF acc]
  note b = translated_rule_needs_both_fields
    [of "\<lambda>p. Inr (JObject [(''type'', JString ''CO_RUN'')])" "''id_9''" "[]" "''T1 alone''",
     THEN conjunct2, rule_format, of "JObject [(''type'', JString ''CO_RUN'')]"]
  from a have ex: "\<exists>answer ty pa.
      getProp answer ''type'' = Inr (Some ty) \<and> getProp answer ''params'' = Inr (Some pa) \<and>
      [\<lparr>id' = ''id_9'', type' = JString ''CO_RUN'',
        params = JObject [(''taskIds'', JArray [JString ''T1''])]\<rparr>] =
      [] @ [\<lparr>id' = ''id_9'', type' = ty, params = pa\<rparr>]"
    by blast
  from b tr np have rej:
    "onUpdate (handleNaturalLanguageConvert (\<lambda>p. Inr (JObject [(''type'', JString ''CO_RUN'')]))
        ''id_9'' [] ''T1 alone'') = None \<and>
     toasted (handleNaturalLanguageConvert (\<lambda>p. Inr (JObject [(''type'', JString ''CO_RUN'')]))
        ''id_9'' [] ''T1 alone'') = FailedToGenerate (Error ''Invalid rule format from AI'')"
    by blast
  from acc ex tr np rej show ?thesis by blast
qed



section \<open>Coercion of an edited field\<close>

lemma handleUpdateCell2_list:
  assumes "fld \<in> set listFields"
  shows "handleUpdateCell2 dataSet rowIndex fld v fld =
         (case rowCopy dataSet rowIndex fld of
            CString old \<Rightarrow> CString (join '', '' (splitTrimDrop v))
          | _ \<Rightarrow> CArray (map VStr (splitTrimDrop v)))"
  using assms
  by (cases "rowCopy dataSet rowIndex fld") (simp_all add: handleUpdateCell2_def Let_def)

lemma handleUpdateCell2_numeric_fallback:
  assumes "fld \<in> set numericFields" and "parseInt10 v = NaN"
  shows "handleUpdateCell2 dataSet rowIndex fld v fld = CString ''0''"
proof -
  have "fld \<notin> set listFields"
    using assms(1) by (auto simp: numericFields_def listFields_def)
  moreover have "showInt 0 = ''0''"
    by (simp add: showInt_def digitChar_def)
  ultimately show ?thesis
    using assms by (simp add: handleUpdateCell2_def Let_def)
qed

lemma applyAIFix_uniform:
  assumes "applyAIFix dataSet et i fld v = Some updated"
  shows "\<exists>row\<in>set dataSet. row (idKeyOf et) = CString i \<and>
           updated = handleUpdateCell2 [row] 0 fld v"
proof -
  from assms obtain row where f: "find (\<lambda>row. row (idKeyOf et) = CString i) dataSet = Some row"
    by (auto simp: applyAIFix_def split: option.splits)
  then have "row \<in> set dataSet" and "row (idKeyOf et) = CString i"
    by (auto simp: find_Some_iff)
  moreover from assms f have "updated = handleUpdateCell2 [row] 0 fld v"
    by (auto simp: applyAIFix_def handleUpdateCell2_def rowCopy_def Let_def)
  ultimately show ?thesis by blast
qed

text \<open>
  C9. Editing the AvailableSlots cell of a row that holds the array \<^verbatim>\<open>["1","2"]\<close> to the
  text "1, 3": the first copy of the data tab stores the string "1,3", which no longer has
  the list representation the field had; the second copy stores the array \<^verbatim>\<open>["1","3"]\<close>.
  In both, a numeric field edited to text without digits is stored as "0".
\<close>

theorem edit_loses_list_representation:
  "handleUpdateCell1 [sampleRow] 0 ''AvailableSlots'' ''1, 3'' ''AvailableSlots'' = CString ''1,3'' \<and>
   handleUpdateCell2 [sampleRow] 0 ''AvailableSlots'' ''1, 3'' ''AvailableSlots'' =
     CArray [VStr ''1'', VStr ''3''] \<and>
   handleUpdateCell1 [sampleRow] 0 ''MaxConcurrent'' ''many'' ''MaxConcurrent'' = CString ''0'' \<and>
   handleUpdateCell2 [sampleRow] 0 ''MaxConcurrent'' ''many'' ''MaxConcurrent'' = CString ''0''"
proof -
  have sp: "splitTrimDrop ''1, 3'' = [''1'', ''3'']"
    by (simp add: splitTrimDrop_def trim_def isWhiteSpace_def)
  have pi: "parseInt10 ''many'' = NaN"
    by (simp add: parseInt10_def isWhiteSpace_def isDigit_def)
  have z: "showInt 0 = ''0''"
    by (simp add: showInt_def digitChar_def)
  have old: "rowCopy [sampleRow] 0 ''AvailableSlots'' = CArray [VStr ''1'', VStr ''2'']"
    by (simp add: rowCopy_def sampleRow_def)
  have l: "''AvailableSlots'' \<in> set listFields" "''MaxConcurrent'' \<notin> set listFields"
    "''MaxConcurrent'' \<in> set numericFields"
    by (simp_all add: listFields_def numericFields_def)
  show ?thesis
    by (simp add: handleUpdateCell1_def handleUpdateCell2_def Let_def sp pi z old l)
qed


end
